theory Spec2Isabelle
  imports Main
begin

section \<open>Python strings\<close>

text \<open>
  A Python \<open>str\<close> is a sequence of Unicode code points, and \<open>len\<close>, indexing and
  \<open>in\<close> work on code points. A code point is a natural number here, so that the
  chess glyphs of \<open>UNICODE_MAP\<close> and the escape character are single elements.
  \<open>py\<close> reads an ASCII literal of the source.
\<close>

type_synonym pychar = nat
type_synonym pystr = "pychar list"

definition py :: "string \<Rightarrow> pystr" where
  "py s = map of_char s"

text \<open>
  The whitespace of \<open>str.strip()\<close>, \<open>str.split()\<close> and \<open>str.isspace()\<close>:
  the code points CPython lists in \<open>_PyUnicode_IsWhitespace\<close>.
\<close>

definition is_space :: "pychar \<Rightarrow> bool" where
  "is_space c \<longleftrightarrow>
     (9 \<le> c \<and> c \<le> 13) \<or> (28 \<le> c \<and> c \<le> 32) \<or> c = 133 \<or> c = 160 \<or> c = 5760 \<or>
     (8192 \<le> c \<and> c \<le> 8202) \<or> c = 8232 \<or> c = 8233 \<or> c = 8239 \<or> c = 8287 \<or> c = 12288"

text \<open>\<open>s.strip()\<close>: whitespace removed at both ends.\<close>

definition py_strip :: "pystr \<Rightarrow> pystr" where
  "py_strip s = rev (dropWhile is_space (rev (dropWhile is_space s)))"

text \<open>\<open>s.rstrip("\n\r")\<close>: line feeds and carriage returns removed at the right end.\<close>

definition rstrip_nl :: "pystr \<Rightarrow> pystr" where
  "rstrip_nl s = rev (dropWhile (\<lambda>c. c = 10 \<or> c = 13) (rev s))"

text \<open>
  \<open>s.split()\<close>: the maximal runs of non-whitespace, in order. \<open>cur\<close> is the token
  being read.
\<close>

fun split_ws :: "pystr \<Rightarrow> pystr \<Rightarrow> pystr list" where
  "split_ws cur [] = (if cur = [] then [] else [cur])"
| "split_ws cur (c # cs) =
     (if is_space c then (if cur = [] then split_ws [] cs else cur # split_ws [] cs)
      else split_ws (cur @ [c]) cs)"

definition py_split :: "pystr \<Rightarrow> pystr list" where
  "py_split s = split_ws [] s"

text \<open>\<open>s.split(" ", 1)[1]\<close> for an \<open>s\<close> that contains a space: what follows the first space.\<close>

definition after_first_space :: "pystr \<Rightarrow> pystr" where
  "after_first_space s = tl (dropWhile (\<lambda>c. c \<noteq> 32) s)"

text \<open>\<open>s.startswith(p)\<close>.\<close>

definition startswith :: "pystr \<Rightarrow> pystr \<Rightarrow> bool" where
  "startswith s p \<longleftrightarrow> take (length p) s = p"

text \<open>\<open>sep.join(xs)\<close>.\<close>

fun py_join :: "pystr \<Rightarrow> pystr list \<Rightarrow> pystr" where
  "py_join sep [] = []"
| "py_join sep [x] = x"
| "py_join sep (x # y # ys) = x @ sep @ py_join sep (y # ys)"

text \<open>
  \<open>s.replace(old, '')\<close>: the occurrences of \<open>old\<close> are removed from left to right,
  without overlap; an empty \<open>old\<close> leaves \<open>s\<close> as it is.
\<close>

function remove_sub :: "pystr \<Rightarrow> pystr \<Rightarrow> pystr" where
  "remove_sub old [] = []"
| "remove_sub old (c # cs) =
     (if old \<noteq> [] \<and> take (length old) (c # cs) = old
      then remove_sub old (drop (length old) (c # cs))
      else c # remove_sub old cs)"
  by pat_completeness auto
termination
  by (relation "measure (\<lambda>(old, s). length s)") (auto simp: Suc_diff_le)

text \<open>
  The builtins whose result depends on the Unicode character database are parameters of
  the model: \<open>str.upper\<close>, \<open>str.lower\<close>, \<open>str.islower\<close> and \<open>int\<close> of a string
  (\<open>None\<close> is \<open>ValueError\<close>).
\<close>

record builtins =
  str_upper :: "pystr \<Rightarrow> pystr"
  str_lower :: "pystr \<Rightarrow> pystr"
  str_islower :: "pystr \<Rightarrow> bool"
  str_int :: "pystr \<Rightarrow> int option"

text \<open>Their restriction to ASCII, for closed instances.\<close>

definition ascii_upper :: "pystr \<Rightarrow> pystr" where
  "ascii_upper s = map (\<lambda>c. if 97 \<le> c \<and> c \<le> 122 then c - 32 else c) s"

definition ascii_lower :: "pystr \<Rightarrow> pystr" where
  "ascii_lower s = map (\<lambda>c. if 65 \<le> c \<and> c \<le> 90 then c + 32 else c) s"

definition ascii_islower :: "pystr \<Rightarrow> bool" where
  "ascii_islower s \<longleftrightarrow>
     (\<exists>c \<in> set s. 97 \<le> c \<and> c \<le> 122) \<and> \<not> (\<exists>c \<in> set s. 65 \<le> c \<and> c \<le> 90)"

text \<open>
  \<open>int\<close> of an ASCII text: whitespace around it is dropped, one sign may come first, and
  the rest is decimal digits, with single underscores allowed between two digits.
  \<open>prev\<close> tells that the character before was a digit and \<open>cnt\<close> counts the digits:
  CPython (3.11 and later, by default) raises \<open>ValueError\<close> for more than 4300 of them.
\<close>

fun digits_value :: "bool \<Rightarrow> nat \<Rightarrow> int \<Rightarrow> pystr \<Rightarrow> int option" where
  "digits_value prev cnt acc [] = (if prev \<and> cnt \<le> 4300 then Some acc else None)"
| "digits_value prev cnt acc (c # cs) =
     (if 48 \<le> c \<and> c \<le> 57 then digits_value True (cnt + 1) (10 * acc + (int c - 48)) cs
      else if c = 95 \<and> prev then digits_value False cnt acc cs
      else None)"

definition ascii_int :: "pystr \<Rightarrow> int option" where
  "ascii_int s =
     (case py_strip s of
        [] \<Rightarrow> None
      | c # cs \<Rightarrow>
          if c = 45 then map_option uminus (digits_value False 0 0 cs)
          else if c = 43 then digits_value False 0 0 cs
          else digits_value False 0 0 (c # cs))"

definition ascii_builtins :: builtins where
  "ascii_builtins =
     \<lparr>str_upper = ascii_upper, str_lower = ascii_lower,
      str_islower = ascii_islower, str_int = ascii_int\<rparr>"

section \<open>Move notation: \<open>parse_algebraic\<close>\<close>

datatype py_error = IndexError | KeyError

definition is_file :: "pychar \<Rightarrow> bool" where
  "is_file c \<longleftrightarrow> c \<in> set (py ''abcdefgh'')"

definition is_rank :: "pychar \<Rightarrow> bool" where
  "is_rank c \<longleftrightarrow> c \<in> set (py ''12345678'')"

text \<open>The chain of \<open>replace\<close> calls that drops capture, check, mate and promotion marks.\<close>

definition strip_marks :: "pystr \<Rightarrow> pystr" where
  "strip_marks s =
     remove_sub (py ''=N'') (remove_sub (py ''=B'') (remove_sub (py ''=R'')
       (remove_sub (py ''=Q'') (remove_sub (py ''#'') (remove_sub (py ''+'')
         (remove_sub (py ''x'') s))))))"

definition piece_chars :: "pystr set" where
  "piece_chars = {py ''K'', py ''Q'', py ''R'', py ''B'', py ''N''}"

text \<open>The test of the first \<open>if\<close>: the text is taken as coordinate notation.\<close>

definition coordinate_form :: "pystr \<Rightarrow> bool" where
  "coordinate_form m \<longleftrightarrow>
     length m \<ge> 4 \<and> is_file (m ! 0) \<and> is_rank (m ! 1) \<and> is_file (m ! 2)"

definition start_rank :: "pychar \<Rightarrow> pychar" where
  "start_rank dest_rank =
     (if dest_rank \<in> set (py ''34'') then of_char CHR ''2''
      else if dest_rank \<in> set (py ''56'') then of_char CHR ''7''
      else of_char CHR ''2'')"

text \<open>
  \<open>Inr None\<close> is the return value \<open>None\<close> (unparseable), \<open>Inl IndexError\<close> the
  exception of \<open>move_str[0]\<close> when the marks were the whole text.
\<close>

definition parse_algebraic :: "builtins \<Rightarrow> pystr \<Rightarrow> py_error + pystr option" where
  "parse_algebraic B move_str0 =
     (let move_str = py_strip move_str0 in
      if move_str = [] then Inr None
      else if coordinate_form move_str then Inr (Some move_str)
      else
        let move_str = strip_marks move_str in
        if length move_str = 2 \<and> is_file (move_str ! 0) \<and> is_rank (move_str ! 1) then
          let file = move_str ! 0; dest_rank = move_str ! 1
          in Inr (Some [file, start_rank dest_rank, file, dest_rank])
        else if move_str = [] then Inl IndexError
        else if str_upper B [move_str ! 0] \<in> piece_chars then
          let rest = tl move_str in
          if length rest \<ge> 2 \<and> is_file (rest ! (length rest - 2)) \<and> is_rank (rest ! (length rest - 1))
          then
            let dest = drop (length rest - 2) rest;
                disambig = (if length rest > 2 then take (length rest - 2) rest else [])
            in if length disambig = 2 \<and> is_file (disambig ! 0) \<and> is_rank (disambig ! 1)
               then Inr (Some (disambig @ dest))
               else Inr None
          else Inr None
        else Inr None)"

section \<open>Board rendering: \<open>render_board\<close>\<close>

text \<open>
  \<open>Fore\<close>, \<open>Back\<close> and \<open>Style\<close> come from the colorama package, or are the
  \<open>Dummy\<close> object of the source when the import fails; the strings the source reads from
  them are a parameter of the model.
\<close>

record colors =
  fore_yellow :: pystr
  fore_black :: pystr
  fore_green :: pystr
  fore_cyan :: pystr
  fore_magenta :: pystr
  fore_red :: pystr
  back_blue :: pystr
  back_white :: pystr
  style_reset_all :: pystr

text \<open>colorama's ANSI sequences: the escape character, \<open>[\<close>, the code and \<open>m\<close>.\<close>

definition ansi :: "string \<Rightarrow> pystr" where
  "ansi code = 27 # py ''['' @ py code @ py ''m''"

definition colorama :: colors where
  "colorama =
     \<lparr>fore_yellow = ansi ''33'', fore_black = ansi ''30'', fore_green = ansi ''32'',
      fore_cyan = ansi ''36'', fore_magenta = ansi ''35'', fore_red = ansi ''31'',
      back_blue = ansi ''44'', back_white = ansi ''47'', style_reset_all = ansi ''0''\<rparr>"

definition dummy :: colors where
  "dummy =
     \<lparr>fore_yellow = [], fore_black = [], fore_green = [], fore_cyan = [], fore_magenta = [],
      fore_red = [], back_blue = [], back_white = [], style_reset_all = []\<rparr>"

text \<open>\<open>UNICODE_MAP\<close>: the glyphs are the code points U+2654 to U+265F.\<close>

definition UNICODE_MAP :: "(pystr \<times> pystr) list" where
  "UNICODE_MAP =
     [(py ''P'', [9817]), (py ''R'', [9814]), (py ''N'', [9816]),
      (py ''B'', [9815]), (py ''Q'', [9813]), (py ''K'', [9812]),
      (py ''p'', [9823]), (py ''r'', [9820]), (py ''n'', [9822]),
      (py ''b'', [9821]), (py ''q'', [9819]), (py ''k'', [9818])]"

text \<open>\<open>int(rank)\<close>, with 0 where it raises \<open>ValueError\<close>.\<close>

definition rank_number :: "builtins \<Rightarrow> pystr \<Rightarrow> int" where
  "rank_number B rank = (case str_int B rank of Some n \<Rightarrow> n | None \<Rightarrow> 0)"

definition actual_file :: "bool \<Rightarrow> nat \<Rightarrow> int" where
  "actual_file flip file_index = (if flip then 7 - int file_index else int file_index)"

definition dark :: "bool \<Rightarrow> nat \<Rightarrow> int \<Rightarrow> bool" where
  "dark flip file_index rank_num \<longleftrightarrow> (actual_file flip file_index + rank_num) mod 2 = 1"

text \<open>One cell of a rank row, from the piece token and the colour of its square.\<close>

definition render_cell :: "builtins \<Rightarrow> colors \<Rightarrow> bool \<Rightarrow> bool \<Rightarrow> bool \<Rightarrow> pystr \<Rightarrow> pystr" where
  "render_cell B C use_unicode colorize is_dark piece =
     (let cell_bg = (if is_dark then back_blue C else if colorize then back_white C else []);
          fg = (if str_islower B piece then fore_yellow C
                else if piece \<noteq> py ''.'' then fore_black C else fore_green C);
          symbol = (case (if use_unicode then map_of UNICODE_MAP piece else None) of
                      Some glyph \<Rightarrow> glyph
                    | None \<Rightarrow> if piece = py ''.'' then py '' '' else piece)
      in if colorize
         then cell_bg @ fg @ py '' '' @ symbol @ py '' '' @ (if colorize then style_reset_all C else [])
         else py '' '' @ symbol @ py '' '')"

text \<open>The cells of a row whose pieces are already in display order (\<open>rendered_row\<close>).\<close>

definition rendered_row :: "builtins \<Rightarrow> colors \<Rightarrow> bool \<Rightarrow> bool \<Rightarrow> bool \<Rightarrow> int \<Rightarrow> pystr list \<Rightarrow> pystr list" where
  "rendered_row B C use_unicode colorize flip rank_num pieces =
     map (\<lambda>(file_index, piece).
            render_cell B C use_unicode colorize (dark flip file_index rank_num) piece)
         (enumerate 0 pieces)"

text \<open>The body of the loop over \<open>board_rows\<close>: the line appended to \<open>out_lines\<close>.\<close>

definition render_row :: "builtins \<Rightarrow> colors \<Rightarrow> bool \<Rightarrow> bool \<Rightarrow> bool \<Rightarrow> pystr \<Rightarrow> pystr" where
  "render_row B C use_unicode colorize flip raw =
     (let parts = py_split raw in
      if length parts < 9 then raw
      else
        let rank = hd parts;
            pieces = tl parts;
            pieces = (if flip then rev pieces else pieces)
        in rank @ py '' '' @
           concat (rendered_row B C use_unicode colorize flip (rank_number B rank) pieces))"

definition board_rows :: "bool \<Rightarrow> pystr list \<Rightarrow> pystr list" where
  "board_rows flip ascii_lines =
     (let rows = (if length ascii_lines = 9 then butlast ascii_lines else ascii_lines)
      in if flip then rev rows else rows)"

definition file_labels :: "pystr list \<Rightarrow> pystr" where
  "file_labels ascii_lines =
     (if length ascii_lines = 9 then last ascii_lines else py ''  a b c d e f g h'')"

definition out_lines :: "builtins \<Rightarrow> colors \<Rightarrow> pystr list \<Rightarrow> bool \<Rightarrow> bool \<Rightarrow> bool \<Rightarrow> pystr list" where
  "out_lines B C ascii_lines use_unicode colorize flip =
     map (render_row B C use_unicode colorize flip) (board_rows flip ascii_lines) @
     [if flip then py ''  h g f e d c b a''
      else if py_strip (file_labels ascii_lines) \<noteq> [] then file_labels ascii_lines
      else py ''  a b c d e f g h'']"

definition render_board :: "builtins \<Rightarrow> colors \<Rightarrow> pystr list \<Rightarrow> bool \<Rightarrow> bool \<Rightarrow> bool \<Rightarrow> pystr" where
  "render_board B C ascii_lines use_unicode colorize flip =
     py_join [10] (out_lines B C ascii_lines use_unicode colorize flip)"

subsection \<open>The renderer with its exceptions\<close>

text \<open>
  \<open>render_board\<close> once more, with every step of the source that can raise written as a
  result: a subscript \<open>xs[i]\<close> (\<open>IndexError\<close>), a dictionary lookup
  \<open>UNICODE_MAP[piece]\<close> (\<open>KeyError\<close>), and \<open>int(rank)\<close>, whose \<open>ValueError\<close> the
  source catches and answers with 0. Slices, \<open>split\<close>, \<open>strip\<close>, \<open>islower\<close>,
  \<open>reversed\<close>, \<open>enumerate\<close> and \<open>join\<close> raise nothing on strings and lists of strings.
\<close>

definition subscript :: "'a list \<Rightarrow> int \<Rightarrow> py_error + 'a" where
  "subscript xs i =
     (if - int (length xs) \<le> i \<and> i < int (length xs)
      then Inr (xs ! nat (if i < 0 then i + int (length xs) else i))
      else Inl IndexError)"

definition lookup :: "('k \<times> 'v) list \<Rightarrow> 'k \<Rightarrow> py_error + 'v" where
  "lookup m k = (case map_of m k of None \<Rightarrow> Inl KeyError | Some v \<Rightarrow> Inr v)"

text \<open>The results of a loop: the first exception ends it.\<close>

fun collect :: "(py_error + 'a) list \<Rightarrow> py_error + 'a list" where
  "collect [] = Inr []"
| "collect (r # rs) =
     (case r of
        Inl e \<Rightarrow> Inl e
      | Inr v \<Rightarrow> (case collect rs of Inl e \<Rightarrow> Inl e | Inr vs \<Rightarrow> Inr (v # vs)))"

definition render_cell_result ::
  "builtins \<Rightarrow> colors \<Rightarrow> bool \<Rightarrow> bool \<Rightarrow> bool \<Rightarrow> pystr \<Rightarrow> py_error + pystr" where
  "render_cell_result B C use_unicode colorize is_dark piece =
     (let cell_bg = (if is_dark then back_blue C else if colorize then back_white C else []);
          fg = (if str_islower B piece then fore_yellow C
                else if piece \<noteq> py ''.'' then fore_black C else fore_green C);
          symbol = (if use_unicode \<and> piece \<in> fst ` set UNICODE_MAP then lookup UNICODE_MAP piece
                    else if piece = py ''.'' then Inr (py '' '') else Inr piece)
      in case symbol of
           Inl e \<Rightarrow> Inl e
         | Inr symbol \<Rightarrow>
             Inr (if colorize
                  then cell_bg @ fg @ py '' '' @ symbol @ py '' '' @
                       (if colorize then style_reset_all C else [])
                  else py '' '' @ symbol @ py '' ''))"

definition render_row_result ::
  "builtins \<Rightarrow> colors \<Rightarrow> bool \<Rightarrow> bool \<Rightarrow> bool \<Rightarrow> pystr \<Rightarrow> py_error + pystr" where
  "render_row_result B C use_unicode colorize flip raw =
     (let parts = py_split raw in
      if length parts < 9 then Inr raw
      else
        case subscript parts 0 of
          Inl e \<Rightarrow> Inl e
        | Inr rank \<Rightarrow>
            let pieces = drop 1 parts;
                pieces = (if flip then rev pieces else pieces);
                rank_num = (case str_int B rank of Some n \<Rightarrow> n | None \<Rightarrow> 0)
            in case collect
                      (map (\<lambda>(file_index, piece).
                              render_cell_result B C use_unicode colorize
                                (dark flip file_index rank_num) piece)
                           (enumerate 0 pieces)) of
                 Inl e \<Rightarrow> Inl e
               | Inr cells \<Rightarrow> Inr (rank @ py '' '' @ concat cells))"

definition render_board_result ::
  "builtins \<Rightarrow> colors \<Rightarrow> pystr list \<Rightarrow> bool \<Rightarrow> bool \<Rightarrow> bool \<Rightarrow> py_error + pystr" where
  "render_board_result B C ascii_lines use_unicode colorize flip =
     (case (if length ascii_lines = 9 then subscript ascii_lines (- 1)
            else Inr (py ''  a b c d e f g h'')) of
        Inl e \<Rightarrow> Inl e
      | Inr labels \<Rightarrow>
          (case collect (map (render_row_result B C use_unicode colorize flip)
                           (board_rows flip ascii_lines)) of
             Inl e \<Rightarrow> Inl e
           | Inr rows \<Rightarrow>
               Inr (py_join [10]
                      (rows @
                       [if flip then py ''  h g f e d c b a''
                        else if py_strip labels \<noteq> [] then labels
                        else py ''  a b c d e f g h'']))))"

section \<open>The reader: \<open>read_loop\<close>\<close>

text \<open>
  The dictionary \<open>state\<close>: \<open>last_board\<close> is \<open>None\<close> or a string, and
  \<open>player_color\<close> is \<open>None\<close> while the key is absent (\<open>state.get\<close> returns \<open>None\<close>).
\<close>

record state =
  last_board :: "pystr option"
  ascii_only :: bool
  player_color :: "pystr option"

text \<open>The dictionary that \<open>main\<close> creates.\<close>

definition initial_state :: state where
  "initial_state = \<lparr>last_board = None, ascii_only = False, player_color = None\<rparr>"

text \<open>What reaches the terminal: \<open>os.system('clear')\<close> and each call of \<open>print\<close>.\<close>

datatype event = ClearScreen | Print pystr

text \<open>\<open>print(a, b)\<close> writes both arguments with a space between them.\<close>

definition print2 :: "pystr \<Rightarrow> pystr \<Rightarrow> event" where
  "print2 a b = Print (a @ py '' '' @ b)"

text \<open>
  The socket file is the list of the lines still to come, each with its line end;
  \<open>readline\<close> returns the empty string when none is left.
\<close>

definition readline :: "pystr list \<Rightarrow> pystr \<times> pystr list" where
  "readline f = (case f of [] \<Rightarrow> ([], []) | l # f' \<Rightarrow> (l, f'))"

text \<open>The loop \<open>for _ in range(9)\<close> that fills \<open>board_lines\<close>; it breaks on an empty read.\<close>

fun read_board_lines :: "nat \<Rightarrow> pystr list \<Rightarrow> pystr list \<times> pystr list" where
  "read_board_lines 0 f = ([], f)"
| "read_board_lines (Suc n) f =
     (case readline f of
        (l, f') \<Rightarrow>
          if l = [] then ([], f')
          else (case read_board_lines n f' of (ls, f'') \<Rightarrow> (rstrip_nl l # ls, f'')))"

text \<open>
  One turn of the \<open>while\<close> loop after a non-empty read: what is printed, the new state
  and the rest of the socket file.
\<close>

definition handle_line ::
  "builtins \<Rightarrow> colors \<Rightarrow> state \<Rightarrow> pystr \<Rightarrow> pystr list \<Rightarrow> event list \<times> state \<times> pystr list" where
  "handle_line B C st line0 f =
     (let line = rstrip_nl line0 in
      if line = py ''BOARD'' then
        (case read_board_lines 9 f of
           (board_lines, f') \<Rightarrow>
             let flip = (player_color st = Some (py ''BLACK''));
                 rendered = (if ascii_only st then py_join [10] board_lines
                             else render_board B C board_lines True True flip)
             in ([ClearScreen, Print rendered], st\<lparr>last_board := Some rendered\<rparr>, f'))
      else if startswith line (py ''ROOM '') then
        (let key = after_first_space line
         in ([Print (fore_cyan C @ [10] @ py ''[room created]'' @ style_reset_all C),
              Print (fore_cyan C @ py ''  key: '' @ key @ style_reset_all C),
              Print (fore_cyan C @ py ''  share with: python3 client.py --name <yourname> --room ''
                     @ key @ [10] @ style_reset_all C)],
             st, f))
      else if startswith line (py ''QUEUE '') then
        ([print2 (fore_yellow C @ py ''[queued]'' @ style_reset_all C) (drop 6 line)], st, f)
      else if startswith line (py ''ROOM_EXPIRED '') then
        ([Print (fore_yellow C @ py ''[room expired] '' @ after_first_space line @ style_reset_all C)],
         st, f)
      else if startswith line (py ''CANCELLED '') then
        ([Print (fore_yellow C @ py ''[room cancelled] '' @ after_first_space line @ style_reset_all C)],
         st, f)
      else if startswith line (py ''START '') then
        (let parts = py_split line;
             st' = (if length parts \<ge> 2 then st\<lparr>player_color := Some (str_upper B (parts ! 1))\<rparr>
                    else st)
         in ([print2 (fore_cyan C @ py ''[match started]'' @ style_reset_all C) line], st', f))
      else if line = py ''YOURMOVE'' then
        ([Print (fore_green C @ py ''[your move]'' @ style_reset_all C)], st, f)
      else if startswith line (py ''OPPONENT_MOVE '') then
        ([print2 (fore_magenta C @ py ''[opponent]'' @ style_reset_all C)
            (drop (length (py ''OPPONENT_MOVE '')) line)], st, f)
      else if startswith line (py ''ERROR '') then
        ([print2 (fore_red C @ py ''[error]'' @ style_reset_all C)
            (drop (length (py ''ERROR '')) line)], st, f)
      else if startswith line (py ''END '') then
        ([print2 (fore_yellow C @ py ''[game ended]'' @ style_reset_all C)
            (drop (length (py ''END '')) line)], st, f)
      else ([Print line], st, f))"

text \<open>
  The loop itself, run until the server closes the connection (the reader then sets the
  stop event and leaves). The other thread setting the stop event is outside the model.
  No call in the body raises on a string, so the \<open>except\<close> branch is reached only when
  \<open>readline\<close> itself fails, which a list of lines does not do.
\<close>

function read_loop :: "builtins \<Rightarrow> colors \<Rightarrow> state \<Rightarrow> pystr list \<Rightarrow> event list \<times> state" where
  "read_loop B C st f =
     (case f of
        [] \<Rightarrow> ([Print (fore_yellow C @ py ''[connection closed by server]'' @ style_reset_all C)], st)
      | line # f' \<Rightarrow>
          if line = [] then
            ([Print (fore_yellow C @ py ''[connection closed by server]'' @ style_reset_all C)], st)
          else
            (case handle_line B C st line f' of
               (out, st', f'') \<Rightarrow>
                 (case read_loop B C st' f'' of (out', st'') \<Rightarrow> (out @ out', st''))))"
  by pat_completeness auto
termination
proof (relation "measure (\<lambda>(B, C, st, f). length f)")
  show "wf (measure (\<lambda>(B, C, st, f). length f))" by simp
next
  fix B :: builtins and C :: colors and st :: state and f :: "pystr list"
    and line f' out y st' f''
  assume f: "f = line # f'" and "line \<noteq> []"
    and xy: "(out, y) = handle_line B C st line f'" and y: "(st', f'') = y"
  have frame: "length (snd (read_board_lines n g)) \<le> length g" for n g
  proof (induction n arbitrary: g)
    case 0
    show ?case by simp
  next
    case (Suc n)
    show ?case
    proof (cases g)
      case Nil
      then show ?thesis by (simp add: readline_def)
    next
      case (Cons l g')
      from Suc [of g'] show ?thesis
        by (auto simp: Cons readline_def split: prod.split)
    qed
  qed
  have "f'' = snd (snd (handle_line B C st line f'))"
    using xy y by (metis snd_conv)
  also have "length \<dots> \<le> length f'"
    using frame [of 9 f']
    by (auto simp: handle_line_def Let_def split: prod.split)
  finally show "((B, C, st', f''), (B, C, st, f)) \<in> measure (\<lambda>(B, C, st, f). length f)"
    using f by simp
qed

section \<open>The command loop of \<open>main\<close>\<close>

text \<open>How one turn of the loop ends: \<open>continue\<close> or the end of the body, \<open>break\<close>, or an
  exception that leaves the loop.\<close>

datatype control = Continue | Break | Raise py_error

text \<open>The truth value of \<open>state['last_board']\<close> and of \<open>parsed\<close>: \<open>None\<close> and the empty
  string are false.\<close>

definition truthy :: "pystr option \<Rightarrow> bool" where
  "truthy v \<longleftrightarrow> (case v of None \<Rightarrow> False | Some s \<Rightarrow> s \<noteq> [])"

text \<open>\<open>any(c in line.lower() for c in 'abcdefgh12345678')\<close>.\<close>

definition looks_like_move :: "builtins \<Rightarrow> pystr \<Rightarrow> bool" where
  "looks_like_move B line \<longleftrightarrow>
     (\<exists>c \<in> set (py ''abcdefgh12345678''). c \<in> set (str_lower B line))"

text \<open>The lines that are sent without asking \<open>parse_algebraic\<close>.\<close>

definition raw_command :: "builtins \<Rightarrow> pystr \<Rightarrow> bool" where
  "raw_command B line \<longleftrightarrow>
     startswith (str_upper B line) (py ''MOVE '') \<or>
     startswith (str_upper B line) (py ''NAME '') \<or>
     str_upper B line = py ''FF''"

text \<open>
  One turn of the loop on the text that \<open>input()\<close> returned: how the turn ends, what is
  printed, what is written to the socket, and the new state. A write is taken to succeed.
\<close>

definition main_step ::
  "builtins \<Rightarrow> colors \<Rightarrow> state \<Rightarrow> pystr \<Rightarrow> control \<times> event list \<times> pystr list \<times> state" where
  "main_step B C st raw =
     (let line = py_strip raw in
      if line = [] then (Continue, [], [], st)
      else if str_lower B line \<in> {py ''quit'', py ''exit''} then (Break, [], [], st)
      else
        let forfeit = (str_lower B line \<in> {py ''ff'', py ''forfeit''});
            cmd = (if forfeit then py ''FF'' else line)
        in
        if \<not> forfeit \<and> str_lower B line = py ''ascii'' then
          (Continue,
           Print (fore_yellow C @ py ''[display] switched to plain ASCII'' @ style_reset_all C) #
           (case last_board st of
              None \<Rightarrow> []
            | Some b \<Rightarrow> if b \<noteq> [] then [Print (remove_sub [27] b)] else []),
           [], st\<lparr>ascii_only := True\<rparr>)
        else if str_lower B line = py ''unicode'' then
          (Continue,
           Print (fore_yellow C @ py ''[display] switched to colored unicode'' @ style_reset_all C) #
           (case last_board st of
              None \<Rightarrow> []
            | Some b \<Rightarrow> if b \<noteq> [] then [Print b] else []),
           [], st\<lparr>ascii_only := False\<rparr>)
        else if str_lower B line = py ''redraw'' then
          (Continue,
           (case last_board st of
              None \<Rightarrow> [Print (py ''[no board yet]'')]
            | Some b \<Rightarrow> if b \<noteq> [] then [Print b] else [Print (py ''[no board yet]'')]),
           [], st)
        else if \<not> raw_command B line then
          (case parse_algebraic B line of
             Inl e \<Rightarrow> (Raise e, [], [], st)
           | Inr parsed \<Rightarrow>
               if truthy parsed then
                 (case parsed of
                    Some p \<Rightarrow> (Continue, [], [py ''MOVE '' @ p @ [10]], st)
                  | None \<Rightarrow> (Continue, [], [cmd @ [10]], st))
               else
                 (Continue,
                  (if looks_like_move B line
                   then [Print (fore_yellow C @
                           py ''[hint] Use full notation: e2e4 or with piece: Nb1c3'' @
                           style_reset_all C)]
                   else []),
                  [cmd @ [10]], st))
        else (Continue, [], [cmd @ [10]], st))"

text \<open>The loop over the texts typed by the user; the end of the list is \<open>EOFError\<close>.\<close>

fun main_loop ::
  "builtins \<Rightarrow> colors \<Rightarrow> state \<Rightarrow> pystr list \<Rightarrow> control \<times> event list \<times> pystr list \<times> state" where
  "main_loop B C st [] = (Break, [], [], st)"
| "main_loop B C st (raw # inputs) =
     (case main_step B C st raw of
        (Continue, out, sent, st') \<Rightarrow>
          (case main_loop B C st' inputs of
             (ctl, out', sent', st'') \<Rightarrow> (ctl, out @ out', sent @ sent', st''))
      | (ctl, out, sent, st') \<Rightarrow> (ctl, out, sent, st'))"

section \<open>Properties of the notation normalizer\<close>

lemma is_file_iff: "is_file c \<longleftrightarrow> 97 \<le> c \<and> c \<le> 104"
  unfolding is_file_def py_def by (simp, arith)

lemma is_rank_iff: "is_rank c \<longleftrightarrow> 49 \<le> c \<and> c \<le> 56"
  unfolding is_rank_def py_def by (simp, arith)

lemma file_not_space: "is_file c \<Longrightarrow> \<not> is_space c"
  by (simp add: is_file_iff is_space_def)

lemma rank_not_space: "is_rank c \<Longrightarrow> \<not> is_space c"
  by (simp add: is_rank_iff is_space_def)

lemma file_not_rank: "is_file c \<Longrightarrow> \<not> is_rank c"
  by (simp add: is_file_iff is_rank_iff)

lemma start_rank_cases:
  "start_rank r = (if r = 51 \<or> r = 52 then 50 else if r = 53 \<or> r = 54 then 55 else 50)"
  by (simp add: start_rank_def py_def)

text \<open>A text that neither begins nor ends with whitespace is its own \<open>strip()\<close>.\<close>

lemma py_strip_id:
  assumes "s \<noteq> []" "\<not> is_space (hd s)" "\<not> is_space (last s)"
  shows "py_strip s = s"
proof -
  from assms(1,2) have a: "dropWhile is_space s = s"
    by (cases s) simp_all
  from assms(1,3) have b: "dropWhile is_space (rev s) = rev s"
    by (cases "rev s") (simp_all add: last_rev[symmetric] hd_rev)
  show ?thesis by (simp add: py_strip_def a b)
qed

text \<open>A character that begins no mark survives the \<open>replace\<close> calls.\<close>

lemma remove_sub_keep:
  "old = [] \<or> c \<noteq> hd old \<Longrightarrow> remove_sub old (c # cs) = c # remove_sub old cs"
  by (cases old) auto

lemma strip_marks_Nil: "strip_marks [] = []"
  by (simp add: strip_marks_def)

lemma strip_marks_keep:
  assumes "c \<noteq> 120" "c \<noteq> 43" "c \<noteq> 35" "c \<noteq> 61"
  shows "strip_marks (c # cs) = c # strip_marks cs"
  using assms by (simp add: strip_marks_def py_def remove_sub_keep)

lemma strip_marks_file: "is_file c \<Longrightarrow> strip_marks (c # cs) = c # strip_marks cs"
  by (rule strip_marks_keep) (simp_all add: is_file_iff)

lemma strip_marks_rank: "is_rank c \<Longrightarrow> strip_marks (c # cs) = c # strip_marks cs"
  by (rule strip_marks_keep) (simp_all add: is_rank_iff)

lemma coordinate_formE:
  assumes "coordinate_form m"
  obtains a b c d rest where "m = a # b # c # d # rest" "is_file a" "is_rank b" "is_file c"
proof -
  from assms have "length m \<ge> 4" by (simp add: coordinate_form_def)
  then obtain a b c d rest where m: "m = a # b # c # d # rest"
    by (cases m; simp; rename_tac m1, case_tac m1; simp;
        rename_tac m2, case_tac m2; simp; rename_tac m3, case_tac m3; simp)
  with assms show thesis
    by (intro that [of a b c d rest]) (simp_all add: coordinate_form_def)
qed

text \<open>The three characters that make a text coordinate notation are still its first
  three characters after the marks are removed.\<close>

lemma coordinate_form_strip_marks:
  assumes "coordinate_form m"
  shows "\<exists>a b c rest. strip_marks m = a # b # c # rest \<and> is_file a \<and> is_rank b \<and> is_file c"
proof -
  from assms obtain a b c d rest
    where m: "m = a # b # c # d # rest" "is_file a" "is_rank b" "is_file c"
    by (rule coordinate_formE)
  then have "strip_marks m = a # b # c # strip_marks (d # rest)"
    by (simp add: strip_marks_file strip_marks_rank)
  with m show ?thesis by blast
qed

text \<open>The definitions that evaluate \<open>parse_algebraic\<close> on a literal.\<close>

lemmas parse_eval =
  py_def py_strip_def is_space_def strip_marks_def parse_algebraic_def coordinate_form_def
  is_file_iff is_rank_iff start_rank_cases Let_def piece_chars_def ascii_builtins_def
  ascii_upper_def ascii_lower_def

text \<open>
  Claim C2. A text that begins with a file letter, a rank digit, a file letter and a rank
  digit is returned unchanged. The text is trimmed, as the caller passes it: nothing
  follows the four characters, or what follows does not end with whitespace.
\<close>

theorem coordinate_passthrough:
  assumes "is_file f1" and "is_rank r1" and "is_file f2" and "is_rank r2"
    and "rest \<noteq> [] \<Longrightarrow> \<not> is_space (last rest)"
  shows "parse_algebraic B (f1 # r1 # f2 # r2 # rest) = Inr (Some (f1 # r1 # f2 # r2 # rest))"
proof -
  let ?s = "f1 # r1 # f2 # r2 # rest"
  have "\<not> is_space (last ?s)" using assms(4,5) by (simp add: rank_not_space)
  moreover have "\<not> is_space (hd ?s)" using assms(1) by (simp add: file_not_space)
  ultimately have "py_strip ?s = ?s" by (intro py_strip_id) simp_all
  moreover have "coordinate_form ?s" using assms by (simp add: coordinate_form_def)
  ultimately show ?thesis by (simp add: parse_algebraic_def)
qed

theorem coordinate_passthrough_witness:
  "is_file 101 \<and> is_rank 50 \<and> is_rank 52 \<and> is_rank 55 \<and> is_rank 56 \<and>
   parse_algebraic ascii_builtins (py ''e2e4'') = Inr (Some (py ''e2e4'')) \<and>
   parse_algebraic ascii_builtins (py ''e7e8=Q'') = Inr (Some (py ''e7e8=Q''))"
proof -
  have h: "is_file 101" "is_rank 50" "is_rank 52" "is_rank 55" "is_rank 56"
    by (simp_all add: is_file_iff is_rank_iff)
  have s: "\<not> is_space (last (py ''=Q''))" by (simp add: py_def is_space_def)
  show ?thesis
    using h s coordinate_passthrough [of 101 50 101 52 "[]" ascii_builtins]
      coordinate_passthrough [of 101 55 101 56 "py ''=Q''" ascii_builtins]
    by (simp add: py_def)
qed

text \<open>
  Claim C3. When the text left after the capture, check and promotion marks are removed
  is a file letter and a rank digit, the result is the file, the start rank, the file and
  the destination rank; the start rank is 2 for the destinations 3 and 4, 7 for 5 and 6,
  and 2 for every other rank. So \<open>e4\<close> gives \<open>e2e4\<close>, \<open>e5\<close> gives \<open>e7e5\<close> and
  \<open>d4\<close> gives \<open>d2d4\<close>.
\<close>

theorem pawn_destination_start_rank:
  assumes "strip_marks (py_strip s) = [f, r]" and "is_file f" and "is_rank r"
  shows "parse_algebraic B s =
           Inr (Some [f, if r \<in> set (py ''34'') then of_char CHR ''2''
                         else if r \<in> set (py ''56'') then of_char CHR ''7''
                         else of_char CHR ''2'', f, r])"
proof -
  let ?m = "py_strip s"
  from assms(1) have ne: "?m \<noteq> []" by (auto simp: strip_marks_Nil)
  have nc: "\<not> coordinate_form ?m"
  proof
    assume "coordinate_form ?m"
    from coordinate_form_strip_marks [OF this] assms(1) show False by auto
  qed
  show ?thesis using ne nc assms by (simp add: parse_algebraic_def Let_def start_rank_def)
qed

theorem pawn_destination_start_rank_witness:
  "parse_algebraic ascii_builtins (py ''e4'') = Inr (Some (py ''e2e4'')) \<and>
   parse_algebraic ascii_builtins (py ''e5'') = Inr (Some (py ''e7e5'')) \<and>
   parse_algebraic ascii_builtins (py ''d4'') = Inr (Some (py ''d2d4'')) \<and>
   parse_algebraic ascii_builtins (py ''e8=Q+'') = Inr (Some (py ''e2e8''))"
proof -
  have m: "strip_marks (py_strip (py ''e4'')) = [101, 52]"
    "strip_marks (py_strip (py ''e5'')) = [101, 53]"
    "strip_marks (py_strip (py ''d4'')) = [100, 52]"
    "strip_marks (py_strip (py ''e8=Q+'')) = [101, 56]"
    by (simp_all add: parse_eval)
  have h: "is_file 101" "is_file 100" "is_rank 52" "is_rank 53" "is_rank 56"
    by (simp_all add: is_file_iff is_rank_iff)
  show ?thesis
    using pawn_destination_start_rank [OF m(1) h(1) h(3), of ascii_builtins]
      pawn_destination_start_rank [OF m(2) h(1) h(4), of ascii_builtins]
      pawn_destination_start_rank [OF m(3) h(2) h(3), of ascii_builtins]
      pawn_destination_start_rank [OF m(4) h(1) h(5), of ascii_builtins]
    by (simp add: py_def)
qed

text \<open>
  Claim C4. The piece rule is the fourth step of the normalizer and is reached by the texts
  that the first step did not take as coordinate notation. The text left after the marks
  are removed is a piece letter \<open>p\<close>, the characters \<open>d\<close> and a destination square.
  With two characters in \<open>d\<close> that form a square, the result is that square followed by
  the destination. With at most one character in \<open>d\<close>, the result is unparseable. A
  text that the first step takes (\<open>b1c3\<close>, whose first letter is also the bishop's in
  lower case) is returned by that step as it is and never reaches the piece rule.
\<close>

theorem piece_move_source_square:
  assumes m: "strip_marks (py_strip s) = p # d @ [f, r]"
    and p: "str_upper B [p] \<in> piece_chars"
    and f: "is_file f" and r: "is_rank r"
  shows "(length d = 2 \<and> is_file (d ! 0) \<and> is_rank (d ! 1) \<longrightarrow>
            parse_algebraic B s = Inr (Some (d @ [f, r]))) \<and>
         (length d \<le> 1 \<and> \<not> coordinate_form (py_strip s) \<longrightarrow> parse_algebraic B s = Inr None) \<and>
         (coordinate_form (py_strip s) \<longrightarrow> parse_algebraic B s = Inr (Some (py_strip s)))"
proof (intro conjI impI)
  let ?m = "py_strip s"
  from m have ne: "?m \<noteq> []" by (auto simp: strip_marks_Nil)
  have idx: "(d @ [f, r]) ! length d = f" "(d @ [f, r]) ! Suc (length d) = r"
    by (simp_all add: nth_append)
  {
    assume d: "length d = 2 \<and> is_file (d ! 0) \<and> is_rank (d ! 1)"
    have nc: "\<not> coordinate_form ?m"
    proof
      assume "coordinate_form ?m"
      from coordinate_form_strip_marks [OF this] m
      obtain b where "is_rank b" "(p # d @ [f, r]) ! 1 = b"
        by auto
      with d show False by (cases d) (auto simp: file_not_rank)
    qed
    show "parse_algebraic B s = Inr (Some (d @ [f, r]))"
      using ne nc m p f r d idx by (simp add: parse_algebraic_def Let_def nth_append)
  }
  {
    assume d: "length d \<le> 1 \<and> \<not> coordinate_form ?m"
    show "parse_algebraic B s = Inr None"
      using ne m p f r d idx by (simp add: parse_algebraic_def Let_def nth_append)
  }
  {
    assume "coordinate_form ?m"
    then show "parse_algebraic B s = Inr (Some ?m)"
      using ne by (simp add: parse_algebraic_def Let_def)
  }
qed

theorem piece_move_source_square_witness:
  "parse_algebraic ascii_builtins (py ''Nb1d7'') = Inr (Some (py ''b1d7'')) \<and>
   parse_algebraic ascii_builtins (py ''Nc3'') = Inr None \<and>
   parse_algebraic ascii_builtins (py ''Nbc3'') = Inr None \<and>
   parse_algebraic ascii_builtins (py ''Qxe5+'') = Inr None \<and>
   coordinate_form (py_strip (py ''b1c3'')) \<and>
   parse_algebraic ascii_builtins (py ''b1c3'') = Inr (Some (py ''b1c3''))"
proof -
  have m: "strip_marks (py_strip (py ''Nb1d7'')) = 78 # [98, 49] @ [100, 55]"
    "strip_marks (py_strip (py ''Nc3'')) = 78 # [] @ [99, 51]"
    "strip_marks (py_strip (py ''Nbc3'')) = 78 # [98] @ [99, 51]"
    "strip_marks (py_strip (py ''Qxe5+'')) = 81 # [] @ [101, 53]"
    "strip_marks (py_strip (py ''b1c3'')) = 98 # [49] @ [99, 51]"
    by (simp_all add: parse_eval)
  have p: "str_upper ascii_builtins [78] \<in> piece_chars"
    "str_upper ascii_builtins [81] \<in> piece_chars"
    "str_upper ascii_builtins [98] \<in> piece_chars"
    by (simp_all add: parse_eval)
  have h: "is_file 100" "is_rank 55" "is_file 99" "is_rank 51" "is_file 98" "is_rank 49"
    "is_file 101" "is_rank 53"
    by (simp_all add: is_file_iff is_rank_iff)
  have nc: "\<not> coordinate_form (py_strip (py ''Nc3''))"
    "\<not> coordinate_form (py_strip (py ''Nbc3''))"
    "\<not> coordinate_form (py_strip (py ''Qxe5+''))"
    by (simp_all add: parse_eval)
  have c: "coordinate_form (py_strip (py ''b1c3''))"
    "py_strip (py ''b1c3'') = py ''b1c3''"
    by (simp_all add: parse_eval)
  show ?thesis
    using piece_move_source_square [OF m(1) p(1) h(1) h(2)]
      piece_move_source_square [OF m(2) p(1) h(3) h(4)]
      piece_move_source_square [OF m(3) p(1) h(3) h(4)]
      piece_move_source_square [OF m(4) p(2) h(7) h(8)]
      piece_move_source_square [OF m(5) p(3) h(3) h(4)] h nc c
    by (simp add: py_def)
qed

section \<open>Properties of the board renderer\<close>

lemma rendered_row_indices:
  "rendered_row B C u c view n ps =
     map (\<lambda>j. render_cell B C u c (dark view j n) (ps ! j)) [0..<length ps]"
  by (rule nth_equalityI) (simp_all add: rendered_row_def nth_enumerate_eq)

lemma dark_unflipped: "dark False i n \<longleftrightarrow> odd (int i + n)"
  by (simp only: dark_def actual_file_def if_False odd_iff_mod_2_eq_one)

lemma dark_flipped:
  assumes "i \<le> 7"
  shows "dark True i n \<longleftrightarrow> odd (int (7 - i) + n)"
proof -
  from assms have "7 - int i = int (7 - i)" by simp
  then show ?thesis
    by (simp only: dark_def actual_file_def if_True odd_iff_mod_2_eq_one)
qed

text \<open>A row of a label and 8 cells, cell by cell: the cell at position \<open>j\<close> shows the
  square of file \<open>j\<close>, or of file \<open>7 - j\<close> in the flipped view.\<close>

lemma render_row_cells:
  assumes "py_split raw = rank # pieces" and "length pieces = 8"
  shows "render_row B C u c view raw =
           rank @ py '' '' @
           concat (map (\<lambda>j. render_cell B C u c
                                (odd (int (if view then 7 - j else j) + rank_number B rank))
                                (pieces ! (if view then 7 - j else j)))
                     [0..<8])"
proof -
  let ?n = "rank_number B rank"
  let ?ps = "if view then rev pieces else pieces"
  have len: "length ?ps = 8" using assms(2) by simp
  have row: "render_row B C u c view raw = rank @ py '' '' @ concat (rendered_row B C u c view ?n ?ps)"
    using assms by (simp add: render_row_def Let_def)
  have "map (\<lambda>j. render_cell B C u c (dark view j ?n) (?ps ! j)) [0..<8] =
        map (\<lambda>j. render_cell B C u c (odd (int (if view then 7 - j else j) + ?n))
                    (pieces ! (if view then 7 - j else j))) [0..<8]"
  proof (rule map_cong [OF refl])
    fix j assume "j \<in> set [0..<8]"
    then have j: "j < 8" by simp
    show "render_cell B C u c (dark view j ?n) (?ps ! j) =
          render_cell B C u c (odd (int (if view then 7 - j else j) + ?n))
            (pieces ! (if view then 7 - j else j))"
    proof (cases view)
      case True
      have "rev pieces ! j = pieces ! (7 - j)"
        using assms(2) j by (simp add: rev_nth)
      moreover have "dark True j ?n \<longleftrightarrow> odd (int (7 - j) + ?n)"
        using j by (intro dark_flipped) simp
      ultimately show ?thesis using True by simp
    next
      case False
      then show ?thesis by (simp add: dark_unflipped)
    qed
  qed
  then show ?thesis
    by (simp only: row rendered_row_indices len)
qed

text \<open>The returned text, line by line: each row's line with a line feed, then the labels.\<close>

lemma py_join_snoc:
  "py_join [10] (xs @ [l]) = concat (map (\<lambda>x. x @ [10]) xs) @ l"
proof (induction xs)
  case Nil
  show ?case by simp
next
  case (Cons x xs)
  then show ?case by (cases xs) simp_all
qed

lemma render_board_concat:
  "render_board B C ascii_lines u c flip =
     concat (map (\<lambda>r. render_row B C u c flip r @ [10]) (board_rows flip ascii_lines)) @
     (if flip then py ''  h g f e d c b a''
      else if py_strip (file_labels ascii_lines) \<noteq> [] then file_labels ascii_lines
      else py ''  a b c d e f g h'')"
  by (simp add: render_board_def out_lines_def py_join_snoc comp_def)

lemma render_board_split:
  assumes "i < length (board_rows flip ascii_lines)"
  shows "render_board B C ascii_lines u c flip =
           concat (map (\<lambda>r. render_row B C u c flip r @ [10]) (take i (board_rows flip ascii_lines))) @
           render_row B C u c flip (board_rows flip ascii_lines ! i) @ [10] @
           concat (map (\<lambda>r. render_row B C u c flip r @ [10])
                     (drop (Suc i) (board_rows flip ascii_lines))) @
           (if flip then py ''  h g f e d c b a''
            else if py_strip (file_labels ascii_lines) \<noteq> [] then file_labels ascii_lines
            else py ''  a b c d e f g h'')"
proof -
  let ?rows = "board_rows flip ascii_lines"
  let ?f = "\<lambda>r. render_row B C u c flip r @ [10]"
  have "map ?f ?rows = map ?f (take i ?rows @ ?rows ! i # drop (Suc i) ?rows)"
    using id_take_nth_drop [OF assms] by simp
  then have "concat (map ?f ?rows) =
      concat (map ?f (take i ?rows)) @ render_row B C u c flip (?rows ! i) @ [10] @
      concat (map ?f (drop (Suc i) ?rows))"
    by simp
  then show ?thesis by (simp only: render_board_concat append_assoc)
qed

text \<open>No step of the renderer raises.\<close>

lemma collect_Inr_map: "collect (map (\<lambda>x. Inr (g x)) xs) = Inr (map g xs)"
  by (induction xs) auto

lemma render_cell_result_eq:
  "render_cell_result B C u c d piece = Inr (render_cell B C u c d piece)"
proof (cases "map_of UNICODE_MAP piece")
  case None
  then have "piece \<notin> fst ` set UNICODE_MAP" by (simp add: map_of_eq_None_iff)
  with None show ?thesis by (auto simp: render_cell_result_def render_cell_def Let_def)
next
  case (Some glyph)
  then have "piece \<in> fst ` set UNICODE_MAP"
    by (metis map_of_eq_None_iff option.distinct(1))
  with Some show ?thesis
    by (simp add: render_cell_result_def render_cell_def lookup_def Let_def)
qed

lemma render_row_result_eq:
  "render_row_result B C u c flip raw = Inr (render_row B C u c flip raw)"
proof (cases "length (py_split raw) < 9")
  case True
  then show ?thesis by (simp add: render_row_result_def render_row_def Let_def)
next
  case False
  then obtain rank pieces where p: "py_split raw = rank # pieces"
    by (cases "py_split raw") auto
  have s: "subscript (rank # pieces) 0 = Inr rank" by (simp add: subscript_def)
  show ?thesis
    using False
    by (simp add: render_row_result_def render_row_def Let_def p s split_def
        render_cell_result_eq collect_Inr_map rendered_row_def rank_number_def)
qed

lemma render_board_result_eq:
  "render_board_result B C ascii_lines u c flip = Inr (render_board B C ascii_lines u c flip)"
proof -
  have l: "subscript ascii_lines (- 1) = Inr (last ascii_lines)" if "length ascii_lines = 9"
    using that by (cases ascii_lines rule: rev_cases) (simp_all add: subscript_def nth_append)
  have r: "render_row_result B C u c flip = (\<lambda>raw. Inr (render_row B C u c flip raw))"
    by (rule ext) (rule render_row_result_eq)
  show ?thesis
    by (simp add: render_board_result_def render_board_def out_lines_def file_labels_def l r
        collect_Inr_map)
qed

text \<open>The definitions that evaluate the renderer on a literal.\<close>

lemmas render_eval =
  py_def py_strip_def is_space_def Let_def ascii_builtins_def
  render_board_def out_lines_def board_rows_def file_labels_def render_row_def rendered_row_def
  render_cell_def dark_def actual_file_def rank_number_def UNICODE_MAP_def colorama_def ansi_def
  py_split_def ascii_islower_def ascii_int_def enumerate_eq_zip upt_rec dummy_def

text \<open>
  Claim C5. In a rank row of a label and 8 piece cells, the cell of the square on file
  \<open>file\<close> (0 for a) has the dark background exactly when \<open>file\<close> plus the rank number
  is odd, the rank number being \<open>int\<close> of the label (0 when that raises). The cell is the
  same text in both views: it stands at position \<open>file\<close> without flip and at position
  \<open>7 - file\<close> with flip. The rendered row stands in the returned text at the place of
  its row, followed by a line feed. For a1, file 0 of rank 1, the sum is odd: the square is
  dark, at position 0 without flip and at position 7 with it.
\<close>

theorem square_colour_anchored:
  assumes "i < length (board_rows flip ascii_lines)"
    and "board_rows flip ascii_lines ! i = raw"
    and "py_split raw = rank # pieces" and "length pieces = 8"
  shows
    "let rank_num = (case str_int B rank of Some n \<Rightarrow> n | None \<Rightarrow> 0);
         cell = (\<lambda>file.
           let piece = pieces ! file;
               symbol = (case (if u then map_of UNICODE_MAP piece else None) of
                           Some glyph \<Rightarrow> glyph
                         | None \<Rightarrow> if piece = py ''.'' then py '' '' else piece)
           in if c
              then (if odd (int file + rank_num) then back_blue C else back_white C) @
                   (if str_islower B piece then fore_yellow C
                    else if piece \<noteq> py ''.'' then fore_black C else fore_green C) @
                   py '' '' @ symbol @ py '' '' @ style_reset_all C
              else py '' '' @ symbol @ py '' '')
     in render_row B C u c view raw =
          rank @ py '' '' @ concat (map (\<lambda>j. cell (if view then 7 - j else j)) [0..<8]) \<and>
        render_board B C ascii_lines u c flip =
          concat (map (\<lambda>r. render_row B C u c flip r @ [10])
                    (take i (board_rows flip ascii_lines))) @
          (rank @ py '' '' @ concat (map (\<lambda>j. cell (if flip then 7 - j else j)) [0..<8])) @ [10] @
          concat (map (\<lambda>r. render_row B C u c flip r @ [10])
                    (drop (Suc i) (board_rows flip ascii_lines))) @
          (if flip then py ''  h g f e d c b a''
           else if py_strip (file_labels ascii_lines) \<noteq> [] then file_labels ascii_lines
           else py ''  a b c d e f g h'') \<and>
        dark False 0 1 \<and> dark True 7 1"
proof -
  have cells: "render_row B C u c v raw =
      rank @ py '' '' @
      concat (map (\<lambda>j. render_cell B C u c
                           (odd (int (if v then 7 - j else j) + rank_number B rank))
                           (pieces ! (if v then 7 - j else j))) [0..<8])" for v
    using assms(3,4) by (rule render_row_cells)
  have a1: "dark False 0 1" "dark True 7 1"
    by (simp_all add: dark_def actual_file_def)
  show ?thesis
    unfolding Let_def
    by (simp only: render_board_split [OF assms(1)] assms(2) cells a1 simp_thms)
       (simp add: render_cell_def rank_number_def Let_def)
qed

theorem square_colour_anchored_witness:
  "render_board ascii_builtins colorama [py ''2 P P P P P P P P'', py ''1 R N B Q K B N R'']
     True True False =
     py ''2 '' @
     ansi ''47'' @ ansi ''30'' @ [32, 9817, 32] @ ansi ''0'' @
     ansi ''44'' @ ansi ''30'' @ [32, 9817, 32] @ ansi ''0'' @
     ansi ''47'' @ ansi ''30'' @ [32, 9817, 32] @ ansi ''0'' @
     ansi ''44'' @ ansi ''30'' @ [32, 9817, 32] @ ansi ''0'' @
     ansi ''47'' @ ansi ''30'' @ [32, 9817, 32] @ ansi ''0'' @
     ansi ''44'' @ ansi ''30'' @ [32, 9817, 32] @ ansi ''0'' @
     ansi ''47'' @ ansi ''30'' @ [32, 9817, 32] @ ansi ''0'' @
     ansi ''44'' @ ansi ''30'' @ [32, 9817, 32] @ ansi ''0'' @ [10] @
     py ''1 '' @
     ansi ''44'' @ ansi ''30'' @ [32, 9814, 32] @ ansi ''0'' @
     ansi ''47'' @ ansi ''30'' @ [32, 9816, 32] @ ansi ''0'' @
     ansi ''44'' @ ansi ''30'' @ [32, 9815, 32] @ ansi ''0'' @
     ansi ''47'' @ ansi ''30'' @ [32, 9813, 32] @ ansi ''0'' @
     ansi ''44'' @ ansi ''30'' @ [32, 9812, 32] @ ansi ''0'' @
     ansi ''47'' @ ansi ''30'' @ [32, 9815, 32] @ ansi ''0'' @
     ansi ''44'' @ ansi ''30'' @ [32, 9816, 32] @ ansi ''0'' @
     ansi ''47'' @ ansi ''30'' @ [32, 9814, 32] @ ansi ''0'' @ [10] @
     py ''  a b c d e f g h'' \<and>
   render_row ascii_builtins colorama True True True (py ''1 R N B Q K B N R'') =
     py ''1 '' @
     ansi ''47'' @ ansi ''30'' @ [32, 9814, 32] @ ansi ''0'' @
     ansi ''44'' @ ansi ''30'' @ [32, 9816, 32] @ ansi ''0'' @
     ansi ''47'' @ ansi ''30'' @ [32, 9815, 32] @ ansi ''0'' @
     ansi ''44'' @ ansi ''30'' @ [32, 9812, 32] @ ansi ''0'' @
     ansi ''47'' @ ansi ''30'' @ [32, 9813, 32] @ ansi ''0'' @
     ansi ''44'' @ ansi ''30'' @ [32, 9815, 32] @ ansi ''0'' @
     ansi ''47'' @ ansi ''30'' @ [32, 9816, 32] @ ansi ''0'' @
     ansi ''44'' @ ansi ''30'' @ [32, 9814, 32] @ ansi ''0''"
proof -
  let ?snap = "[py ''2 P P P P P P P P'', py ''1 R N B Q K B N R'']"
  have r: "board_rows False ?snap = ?snap" by (simp add: board_rows_def)
  have i: "1 < length (board_rows False ?snap)" by (simp add: r)
  have n: "board_rows False ?snap ! 1 = py ''1 R N B Q K B N R''" by (simp add: r)
  have s: "py_split (py ''1 R N B Q K B N R'') = py ''1'' # [py ''R'', py ''N'', py ''B'', py ''Q'', py ''K'', py ''B'', py ''N'', py ''R'']"
    by (simp add: py_def py_split_def is_space_def)
  have l: "length [py ''R'', py ''N'', py ''B'', py ''Q'', py ''K'', py ''B'', py ''N'', py ''R''] = 8" by simp
  show ?thesis
    using square_colour_anchored [OF i n s l, of ascii_builtins True True colorama True]
    by (simp add: render_eval)
qed

text \<open>
  Claim C6. A row with fewer than 9 whitespace-separated tokens is its own rendering
  line: in the returned text it stands unchanged at the place of its row, followed by a
  line feed, between the lines of the rows before it and the lines of the rows after it,
  which are rendered as ever; the label line ends the text. No step of the renderer raises,
  whatever the lines contain: the renderer with its exceptions returns this very text.
\<close>

theorem malformed_row_passthrough:
  assumes "i < length (board_rows flip ascii_lines)"
    and "length (py_split (board_rows flip ascii_lines ! i)) < 9"
  shows "render_board B C ascii_lines u c flip =
           concat (map (\<lambda>r. render_row B C u c flip r @ [10])
                     (take i (board_rows flip ascii_lines))) @
           board_rows flip ascii_lines ! i @ [10] @
           concat (map (\<lambda>r. render_row B C u c flip r @ [10])
                     (drop (Suc i) (board_rows flip ascii_lines))) @
           (if flip then py ''  h g f e d c b a''
            else if py_strip (file_labels ascii_lines) \<noteq> [] then file_labels ascii_lines
            else py ''  a b c d e f g h'') \<and>
         render_row B C u c flip (board_rows flip ascii_lines ! i) = board_rows flip ascii_lines ! i \<and>
         render_board_result B C ascii_lines u c flip =
           Inr (render_board B C ascii_lines u c flip)"
proof -
  have raw: "render_row B C u c flip (board_rows flip ascii_lines ! i) =
               board_rows flip ascii_lines ! i"
    using assms(2) by (simp add: render_row_def Let_def)
  show ?thesis
    by (simp only: render_board_split [OF assms(1)] raw render_board_result_eq simp_thms)
qed

theorem malformed_row_passthrough_witness:
  "render_board ascii_builtins colorama
     [py ''8 r n b q k b n r'', py ''ERROR bad row'', py ''1 R N B Q K B N R'']
     False False False =
     py ''8  r  n  b  q  k  b  n  r '' @ [10] @
     py ''ERROR bad row'' @ [10] @
     py ''1  R  N  B  Q  K  B  N  R '' @ [10] @
     py ''  a b c d e f g h'' \<and>
   render_board_result ascii_builtins colorama
     [py ''8 r n b q k b n r'', py ''ERROR bad row'', py ''1 R N B Q K B N R'']
     False False False =
     Inr (py ''8  r  n  b  q  k  b  n  r '' @ [10] @
          py ''ERROR bad row'' @ [10] @
          py ''1  R  N  B  Q  K  B  N  R '' @ [10] @
          py ''  a b c d e f g h'') \<and>
   render_board ascii_builtins colorama [py ''x'', py ''8 r n b''] True True True =
     py ''8 r n b'' @ [10] @ py ''x'' @ [10] @ py ''  h g f e d c b a''"
proof -
  let ?snap = "[py ''8 r n b q k b n r'', py ''ERROR bad row'', py ''1 R N B Q K B N R'']"
  have r: "board_rows False ?snap = ?snap" by (simp add: board_rows_def)
  have i: "1 < length (board_rows False ?snap)" by (simp add: r)
  have t: "length (py_split (board_rows False ?snap ! 1)) < 9"
    by (simp add: r) (simp add: py_def py_split_def is_space_def)
  have r': "board_rows True [py ''x'', py ''8 r n b''] = [py ''8 r n b'', py ''x'']"
    by (simp add: board_rows_def)
  have i': "1 < length (board_rows True [py ''x'', py ''8 r n b''])" by (simp add: r')
  have t': "length (py_split (board_rows True [py ''x'', py ''8 r n b''] ! 1)) < 9"
    by (simp add: r') (simp add: py_def py_split_def is_space_def)
  show ?thesis
    using malformed_row_passthrough [OF i t, of ascii_builtins colorama False False]
      malformed_row_passthrough [OF i' t', of ascii_builtins colorama True True]
    by (simp add: render_eval)
qed





section \<open>Properties of the reader\<close>

text \<open>Nine lines that are there are taken whole; fewer lines followed by the end of the
  stream are taken as far as they go.\<close>

lemma read_board_lines_prefix:
  assumes "\<forall>x \<in> set ls. x \<noteq> []" and "length ls \<le> n" and "length ls = n \<or> rest = []"
  shows "read_board_lines n (ls @ rest) = (map rstrip_nl ls, rest)"
  using assms
proof (induction n arbitrary: ls)
  case 0
  then show ?case by simp
next
  case (Suc n)
  show ?case
  proof (cases ls)
    case Nil
    with Suc.prems show ?thesis by (simp add: readline_def)
  next
    case (Cons l ls')
    with Suc.prems have "read_board_lines n (ls' @ rest) = (map rstrip_nl ls', rest)"
      by (intro Suc.IH) auto
    with Cons Suc.prems show ?thesis by (simp add: readline_def)
  qed
qed

lemma handle_board_line:
  assumes "rstrip_nl l = py ''BOARD''"
  shows "handle_line B C st l f =
           (case read_board_lines 9 f of
              (board_lines, f') \<Rightarrow>
                let rendered = (if ascii_only st then py_join [10] board_lines
                                else render_board B C board_lines True True
                                       (player_color st = Some (py ''BLACK'')))
                in ([ClearScreen, Print rendered], st\<lparr>last_board := Some rendered\<rparr>, f'))"
  using assms by (simp add: handle_line_def Let_def)

lemma rstrip_nl_BOARD: "rstrip_nl (py ''BOARD'' @ [10]) = py ''BOARD''"
  by (simp add: rstrip_nl_def py_def)

lemma read_loop_Nil:
  "read_loop B C st [] =
     ([Print (fore_yellow C @ py ''[connection closed by server]'' @ style_reset_all C)], st)"
  by (subst read_loop.simps) simp

lemma read_loop_Cons:
  "line \<noteq> [] \<Longrightarrow>
   read_loop B C st (line # f') =
     (case handle_line B C st line f' of
        (out, st', f'') \<Rightarrow>
          (case read_loop B C st' f'' of (out', st'') \<Rightarrow> (out @ out', st'')))"
  by (subst read_loop.simps) simp

text \<open>
  Claim C1, as the code has it. After the line \<open>BOARD\<close> the next 9 lines are the
  snapshot, whatever they contain: they are rendered, printed after the screen is cleared
  and stored in \<open>last_board\<close>, nothing else is printed for them, and reading goes on with
  the line after them. When the stream ends after fewer than 9 lines, the lines that came
  are rendered, printed and stored in the same way, as a frame of 9 lines is.
\<close>

theorem board_frame_buffering:
  assumes "rstrip_nl l = py ''BOARD''"
    and "\<forall>x \<in> set ls. x \<noteq> []"
    and "length ls = 9 \<or> (length ls < 9 \<and> rest = [])"
  shows "read_board_lines 9 (ls @ rest) = (map rstrip_nl ls, rest) \<and>
         handle_line B C st l (ls @ rest) =
           (let rendered = (if ascii_only st then py_join [10] (map rstrip_nl ls)
                            else render_board B C (map rstrip_nl ls) True True
                                   (player_color st = Some (py ''BLACK'')))
            in ([ClearScreen, Print rendered], st\<lparr>last_board := Some rendered\<rparr>, rest))"
proof -
  have r: "read_board_lines 9 (ls @ rest) = (map rstrip_nl ls, rest)"
    using assms(2,3) by (intro read_board_lines_prefix) auto
  show ?thesis
    by (simp add: r handle_board_line [OF assms(1)] Let_def)
qed

theorem board_frame_buffering_witness:
  "handle_line ascii_builtins colorama (initial_state\<lparr>ascii_only := True\<rparr>) (py ''BOARD'' @ [10])
     ([py ''ERROR x'' @ [10], py ''BOARD'' @ [10], py ''START BLACK bob'' @ [10],
       py ''YOURMOVE'' @ [10], py ''5 . . . . . . . .'' @ [10], py ''END'' @ [10],
       py ''ROOM k'' @ [10], py ''1 R N B Q K B N R'' @ [10], py ''  a b c d e f g h'' @ [10]]
      @ [py ''YOURMOVE'' @ [10]]) =
     ([ClearScreen,
       Print (py_join [10]
                [py ''ERROR x'', py ''BOARD'', py ''START BLACK bob'', py ''YOURMOVE'',
                 py ''5 . . . . . . . .'', py ''END'', py ''ROOM k'', py ''1 R N B Q K B N R'',
                 py ''  a b c d e f g h''])],
      initial_state\<lparr>ascii_only := True,
        last_board := Some (py_join [10]
                [py ''ERROR x'', py ''BOARD'', py ''START BLACK bob'', py ''YOURMOVE'',
                 py ''5 . . . . . . . .'', py ''END'', py ''ROOM k'', py ''1 R N B Q K B N R'',
                 py ''  a b c d e f g h''])\<rparr>,
      [py ''YOURMOVE'' @ [10]]) \<and>
   handle_line ascii_builtins colorama (initial_state\<lparr>ascii_only := True\<rparr>) (py ''BOARD'' @ [10])
     ([py ''8 r n b q k b n r'' @ [10]] @ []) =
     ([ClearScreen, Print (py ''8 r n b q k b n r'')],
      initial_state\<lparr>ascii_only := True, last_board := Some (py ''8 r n b q k b n r'')\<rparr>, [])"
proof -
  let ?ls = "[py ''ERROR x'' @ [10], py ''BOARD'' @ [10], py ''START BLACK bob'' @ [10],
       py ''YOURMOVE'' @ [10], py ''5 . . . . . . . .'' @ [10], py ''END'' @ [10],
       py ''ROOM k'' @ [10], py ''1 R N B Q K B N R'' @ [10], py ''  a b c d e f g h'' @ [10]]"
  have a: "\<forall>x \<in> set ?ls. x \<noteq> []" by simp
  have b: "length ?ls = 9 \<or> (length ?ls < 9 \<and> [py ''YOURMOVE'' @ [10]] = [])" by simp
  have m: "map rstrip_nl ?ls =
             [py ''ERROR x'', py ''BOARD'', py ''START BLACK bob'', py ''YOURMOVE'',
              py ''5 . . . . . . . .'', py ''END'', py ''ROOM k'', py ''1 R N B Q K B N R'',
              py ''  a b c d e f g h'']"
    by (simp add: rstrip_nl_def py_def)
  have a': "\<forall>x \<in> set [py ''8 r n b q k b n r'' @ [10]]. x \<noteq> []" by simp
  have b': "length [py ''8 r n b q k b n r'' @ [10]] = 9 \<or>
            (length [py ''8 r n b q k b n r'' @ [10]] < 9 \<and> ([] :: pystr list) = [])" by simp
  have m': "map rstrip_nl [py ''8 r n b q k b n r'' @ [10]] = [py ''8 r n b q k b n r'']"
    by (simp add: rstrip_nl_def py_def)
  show ?thesis
    using board_frame_buffering [OF rstrip_nl_BOARD a b,
        of ascii_builtins colorama "initial_state\<lparr>ascii_only := True\<rparr>"]
      board_frame_buffering [OF rstrip_nl_BOARD a' b',
        of ascii_builtins colorama "initial_state\<lparr>ascii_only := True\<rparr>"]
    by (simp only: m m' Let_def) (simp add: initial_state_def)
qed

text \<open>
  The claim as it is written fails when the stream ends after one line of the frame: the
  rendering of that one line is printed and becomes \<open>last_board\<close>, the board that
  \<open>redraw\<close> prints later.
\<close>

theorem truncated_frame_counterexample:
  "read_loop ascii_builtins colorama initial_state
     [py ''BOARD'' @ [10], py ''8 r n b q k b n r'' @ [10]] =
     ([ClearScreen,
       Print (render_board ascii_builtins colorama [py ''8 r n b q k b n r''] True True False),
       Print (fore_yellow colorama @ py ''[connection closed by server]'' @
              style_reset_all colorama)],
      initial_state\<lparr>last_board :=
        Some (render_board ascii_builtins colorama [py ''8 r n b q k b n r''] True True False)\<rparr>)"
proof -
  have r: "read_board_lines 9 ([py ''8 r n b q k b n r'' @ [10]] @ []) =
             (map rstrip_nl [py ''8 r n b q k b n r'' @ [10]], [])"
    by (intro read_board_lines_prefix) simp_all
  have s: "rstrip_nl (py ''8 r n b q k b n r'' @ [10]) = py ''8 r n b q k b n r''"
    by (simp add: rstrip_nl_def py_def)
  have h: "handle_line ascii_builtins colorama initial_state (py ''BOARD'' @ [10])
             [py ''8 r n b q k b n r'' @ [10]] =
           ([ClearScreen,
             Print (render_board ascii_builtins colorama [py ''8 r n b q k b n r''] True True False)],
            initial_state\<lparr>last_board :=
              Some (render_board ascii_builtins colorama [py ''8 r n b q k b n r''] True True False)\<rparr>,
            [])"
    using r by (simp add: handle_board_line [OF rstrip_nl_BOARD] s initial_state_def Let_def)
  show ?thesis
    by (simp add: read_loop_Cons h read_loop_Nil)
qed

text \<open>
  Claim C10. While the state has no player colour, a board frame is rendered with
  \<open>flip = False\<close>, and a line that does not begin with \<open>START \<close> leaves the colour
  unknown; the state that \<open>main\<close> creates has none.
\<close>

theorem unknown_colour_not_flipped:
  assumes "player_color st = None"
  shows "(rstrip_nl l = py ''BOARD'' \<longrightarrow>
            handle_line B C st l f =
              (case read_board_lines 9 f of
                 (board_lines, f') \<Rightarrow>
                   let rendered = (if ascii_only st then py_join [10] board_lines
                                   else render_board B C board_lines True True False)
                   in ([ClearScreen, Print rendered], st\<lparr>last_board := Some rendered\<rparr>, f'))) \<and>
         (\<not> startswith (rstrip_nl l) (py ''START '') \<longrightarrow>
            player_color (fst (snd (handle_line B C st l f))) = None) \<and>
         player_color initial_state = None"
proof (intro conjI impI)
  assume "rstrip_nl l = py ''BOARD''"
  then show "handle_line B C st l f =
      (case read_board_lines 9 f of
         (board_lines, f') \<Rightarrow>
           let rendered = (if ascii_only st then py_join [10] board_lines
                           else render_board B C board_lines True True False)
           in ([ClearScreen, Print rendered], st\<lparr>last_board := Some rendered\<rparr>, f'))"
    using assms by (simp add: handle_board_line split: prod.split)
next
  assume "\<not> startswith (rstrip_nl l) (py ''START '')"
  then show "player_color (fst (snd (handle_line B C st l f))) = None"
    using assms by (simp add: handle_line_def Let_def split: prod.split)
next
  show "player_color initial_state = None" by (simp add: initial_state_def)
qed

theorem unknown_colour_not_flipped_witness:
  "player_color initial_state = None \<and>
   handle_line ascii_builtins colorama initial_state (py ''BOARD'' @ [10])
     [py ''8 r n b q k b n r'' @ [10], py ''7 p p p p p p p p'' @ [10]] =
     ([ClearScreen,
       Print (render_board ascii_builtins colorama
                [py ''8 r n b q k b n r'', py ''7 p p p p p p p p''] True True False)],
      initial_state\<lparr>last_board :=
        Some (render_board ascii_builtins colorama
                [py ''8 r n b q k b n r'', py ''7 p p p p p p p p''] True True False)\<rparr>,
      []) \<and>
   player_color (fst (snd (handle_line ascii_builtins colorama initial_state
                             (py ''YOURMOVE'' @ [10]) []))) = None"
proof -
  have c: "player_color initial_state = None" by (simp add: initial_state_def)
  have r: "read_board_lines 9
             ([py ''8 r n b q k b n r'' @ [10], py ''7 p p p p p p p p'' @ [10]] @ []) =
           (map rstrip_nl [py ''8 r n b q k b n r'' @ [10], py ''7 p p p p p p p p'' @ [10]], [])"
    by (intro read_board_lines_prefix) simp_all
  have s: "rstrip_nl (py ''8 r n b q k b n r'' @ [10]) = py ''8 r n b q k b n r''"
    "rstrip_nl (py ''7 p p p p p p p p'' @ [10]) = py ''7 p p p p p p p p''"
    "rstrip_nl (py ''YOURMOVE'' @ [10]) = py ''YOURMOVE''"
    by (simp_all add: rstrip_nl_def py_def)
  have n: "\<not> startswith (rstrip_nl (py ''YOURMOVE'' @ [10])) (py ''START '')"
    by (simp add: s) (simp add: startswith_def py_def)
  show ?thesis
    using unknown_colour_not_flipped [OF c, of "py ''BOARD'' @ [10]" ascii_builtins colorama
        "[py ''8 r n b q k b n r'' @ [10], py ''7 p p p p p p p p'' @ [10]]"]
      unknown_colour_not_flipped [OF c, of "py ''YOURMOVE'' @ [10]" ascii_builtins colorama "[]"]
      r n rstrip_nl_BOARD
    by (simp add: s initial_state_def Let_def)
qed

section \<open>Properties of the command loop\<close>

lemma main_step_ascii:
  assumes "py_strip a \<noteq> []" and "str_lower B (py_strip a) = py ''ascii''"
  shows "main_step B C st a =
           (Continue,
            Print (fore_yellow C @ py ''[display] switched to plain ASCII'' @ style_reset_all C) #
            (case last_board st of
               None \<Rightarrow> []
             | Some b \<Rightarrow> if b \<noteq> [] then [Print (remove_sub [27] b)] else []),
            [], st\<lparr>ascii_only := True\<rparr>)"
proof -
  have "py ''ascii'' \<notin> {py ''quit'', py ''exit''}" "py ''ascii'' \<notin> {py ''ff'', py ''forfeit''}"
    by (simp_all add: py_def)
  with assms show ?thesis by (simp add: main_step_def Let_def)
qed

lemma main_step_redraw:
  assumes "py_strip r \<noteq> []" and "str_lower B (py_strip r) = py ''redraw''"
  shows "main_step B C st r =
           (Continue,
            (case last_board st of
               None \<Rightarrow> [Print (py ''[no board yet]'')]
             | Some b \<Rightarrow> if b \<noteq> [] then [Print b] else [Print (py ''[no board yet]'')]),
            [], st)"
proof -
  have "py ''redraw'' \<notin> {py ''quit'', py ''exit''}" "py ''redraw'' \<notin> {py ''ff'', py ''forfeit''}"
    "py ''redraw'' \<noteq> py ''ascii''" "py ''redraw'' \<noteq> py ''unicode''"
    by (simp_all add: py_def)
  with assms show ?thesis by (simp add: main_step_def Let_def)
qed

text \<open>Replacing one character by nothing removes each of its occurrences.\<close>

lemma remove_sub_single: "remove_sub [c] s = filter (\<lambda>x. x \<noteq> c) s"
  by (induction s) simp_all

text \<open>
  Claim C8. The session: the reader receives the frame of the opening position while the
  display is coloured unicode, then the user types \<open>ascii\<close> and \<open>redraw\<close>. The
  command \<open>ascii\<close> prints the stored rendering with every escape character (code point
  27) removed, and leaves \<open>last_board\<close> as it is; \<open>redraw\<close>, in ascii mode now,
  prints the stored rendering with its escape sequences.
\<close>

theorem redraw_in_ascii_mode_keeps_escapes:
  "let frame = [py ''8 r n b q k b n r'' @ [10], py ''7 p p p p p p p p'' @ [10],
                py ''6 . . . . . . . .'' @ [10], py ''5 . . . . . . . .'' @ [10],
                py ''4 . . . . . . . .'' @ [10], py ''3 . . . . . . . .'' @ [10],
                py ''2 P P P P P P P P'' @ [10], py ''1 R N B Q K B N R'' @ [10],
                py ''  a b c d e f g h'' @ [10]];
       rendered = render_board ascii_builtins colorama
                    [py ''8 r n b q k b n r'', py ''7 p p p p p p p p'',
                     py ''6 . . . . . . . .'', py ''5 . . . . . . . .'',
                     py ''4 . . . . . . . .'', py ''3 . . . . . . . .'',
                     py ''2 P P P P P P P P'', py ''1 R N B Q K B N R'',
                     py ''  a b c d e f g h''] True True False;
       st = fst (snd (handle_line ascii_builtins colorama initial_state (py ''BOARD'' @ [10]) frame))
   in st = initial_state\<lparr>last_board := Some rendered\<rparr> \<and>
      main_loop ascii_builtins colorama st [py ''ascii'', py ''redraw''] =
        (Break,
         [Print (fore_yellow colorama @ py ''[display] switched to plain ASCII'' @
                 style_reset_all colorama),
          Print (remove_sub [27] rendered),
          Print rendered],
         [], initial_state\<lparr>last_board := Some rendered, ascii_only := True\<rparr>) \<and>
      27 \<notin> set (remove_sub [27] rendered) \<and>
      27 \<in> set rendered"
proof -
  let ?frame = "[py ''8 r n b q k b n r'' @ [10], py ''7 p p p p p p p p'' @ [10],
         py ''6 . . . . . . . .'' @ [10], py ''5 . . . . . . . .'' @ [10],
         py ''4 . . . . . . . .'' @ [10], py ''3 . . . . . . . .'' @ [10],
         py ''2 P P P P P P P P'' @ [10], py ''1 R N B Q K B N R'' @ [10],
         py ''  a b c d e f g h'' @ [10]]"
  let ?lines = "[py ''8 r n b q k b n r'', py ''7 p p p p p p p p'',
             py ''6 . . . . . . . .'', py ''5 . . . . . . . .'',
             py ''4 . . . . . . . .'', py ''3 . . . . . . . .'',
             py ''2 P P P P P P P P'', py ''1 R N B Q K B N R'',
             py ''  a b c d e f g h'']"
  let ?b = "render_board ascii_builtins colorama ?lines True True False"
  have e: "27 \<in> set ?b" by (simp add: render_eval)
  then have ne: "?b \<noteq> []" by auto
  have n: "27 \<notin> set (remove_sub [27] ?b)" by (simp add: remove_sub_single)
  have m: "map rstrip_nl ?frame = ?lines" by (simp add: rstrip_nl_def py_def)
  have "read_board_lines 9 (?frame @ []) = (map rstrip_nl ?frame, [])"
    by (intro read_board_lines_prefix) simp_all
  then have r: "read_board_lines 9 ?frame = (?lines, [])" by (simp only: m append_Nil2)
  have h: "fst (snd (handle_line ascii_builtins colorama initial_state (py ''BOARD'' @ [10]) ?frame)) =
             initial_state\<lparr>last_board := Some ?b\<rparr>"
    by (simp add: handle_board_line [OF rstrip_nl_BOARD] r Let_def initial_state_def)
  have a: "py_strip (py ''ascii'') \<noteq> []"
    "str_lower ascii_builtins (py_strip (py ''ascii'')) = py ''ascii''"
    by (simp_all add: py_def py_strip_def is_space_def ascii_builtins_def ascii_lower_def)
  have d: "py_strip (py ''redraw'') \<noteq> []"
    "str_lower ascii_builtins (py_strip (py ''redraw'')) = py ''redraw''"
    by (simp_all add: py_def py_strip_def is_space_def ascii_builtins_def ascii_lower_def)
  have l: "main_loop ascii_builtins colorama (initial_state\<lparr>last_board := Some ?b\<rparr>)
             [py ''ascii'', py ''redraw''] =
           (Break,
            [Print (fore_yellow colorama @ py ''[display] switched to plain ASCII'' @
                    style_reset_all colorama),
             Print (remove_sub [27] ?b),
             Print ?b],
            [], initial_state\<lparr>last_board := Some ?b, ascii_only := True\<rparr>)"
    using ne by (simp add: main_step_ascii [OF a] main_step_redraw [OF d] initial_state_def)
  show ?thesis
    unfolding Let_def by (simp only: h l e n simp_thms)
qed

text \<open>
  Claim C9, as the code has it. A line that is not empty, is no local command and is not
  sent as a raw command, and that \<open>parse_algebraic\<close> returns \<open>None\<close> for, is written to
  the socket as it is in every case. What depends on a file letter or a digit from 1 to 8
  being in the lower-cased line is the hint, which is printed only then.
\<close>

theorem unparseable_text_forwarded:
  assumes "py_strip raw \<noteq> []"
    and "str_lower B (py_strip raw) \<notin>
           {py ''quit'', py ''exit'', py ''ff'', py ''forfeit'', py ''ascii'', py ''unicode'',
            py ''redraw''}"
    and "\<not> raw_command B (py_strip raw)"
    and "parse_algebraic B (py_strip raw) = Inr None"
  shows "main_step B C st raw =
           (Continue,
            (if looks_like_move B (py_strip raw)
             then [Print (fore_yellow C @
                     py ''[hint] Use full notation: e2e4 or with piece: Nb1c3'' @
                     style_reset_all C)]
             else []),
            [py_strip raw @ [10]], st)"
  using assms by (simp add: main_step_def Let_def truthy_def)

lemmas main_eval =
  main_step_def raw_command_def looks_like_move_def startswith_def truthy_def

theorem unparseable_text_forwarded_witness:
  "parse_algebraic ascii_builtins (py_strip (py ''Nc3'')) = Inr None \<and>
   looks_like_move ascii_builtins (py_strip (py ''Nc3'')) \<and>
   main_step ascii_builtins colorama initial_state (py ''Nc3'') =
     (Continue,
      [Print (ansi ''33'' @ py ''[hint] Use full notation: e2e4 or with piece: Nb1c3'' @ ansi ''0'')],
      [py ''Nc3'' @ [10]], initial_state)"
proof -
  have s: "py_strip (py ''Nc3'') = py ''Nc3''"
    by (simp add: py_def py_strip_def is_space_def)
  have a: "py_strip (py ''Nc3'') \<noteq> []" by (simp add: s) (simp add: py_def)
  have b: "str_lower ascii_builtins (py_strip (py ''Nc3'')) \<notin>
           {py ''quit'', py ''exit'', py ''ff'', py ''forfeit'', py ''ascii'', py ''unicode'',
            py ''redraw''}"
    by (simp add: s) (simp add: py_def ascii_builtins_def ascii_lower_def)
  have c: "\<not> raw_command ascii_builtins (py_strip (py ''Nc3''))"
    by (simp add: s) (simp add: py_def ascii_builtins_def ascii_upper_def main_eval)
  have d: "parse_algebraic ascii_builtins (py_strip (py ''Nc3'')) = Inr None"
    by (simp add: s) (simp add: parse_eval)
  have l: "looks_like_move ascii_builtins (py_strip (py ''Nc3''))"
    by (simp add: s) (simp add: py_def ascii_builtins_def ascii_lower_def main_eval)
  show ?thesis
    using unparseable_text_forwarded [OF a b c d, of colorama initial_state] d l
    by (simp add: s colorama_def)
qed

text \<open>
  The claim as it is written fails on the line \<open>ok\<close>: it is unparseable and has no file
  letter and no digit in it, and it is written to the socket.
\<close>

theorem unparseable_text_forwarded_counterexample:
  "parse_algebraic ascii_builtins (py ''ok'') = Inr None \<and>
   \<not> looks_like_move ascii_builtins (py ''ok'') \<and>
   main_step ascii_builtins colorama initial_state (py ''ok'') =
     (Continue, [], [py ''ok'' @ [10]], initial_state)"
  by (simp add: parse_eval main_eval)

end
